theory Spec2Isabelle
  imports Complex_Main "HOL-Library.Log_Nat" "HOL-Library.AList"
begin

section \<open>Python values\<close>

subsection \<open>Floats: binary64 with round-to-nearest, ties-to-even\<close>

text \<open>
  A Python \<^verbatim>\<open>float\<close> is an IEEE 754 binary64 number. A finite float is modelled by the
  rational number it denotes, and every float operation of the source is the exact
  operation followed by the rounding \<open>fl\<close> to the nearest binary64 number, ties to the
  even significand. A decimal literal such as \<^verbatim>\<open>2.2\<close> denotes \<open>fl 2.2\<close>.

  \<open>expo x\<close> is the binary exponent \<open>\<lfloor>log\<^sub>2 \<bar>x\<bar>\<rfloor>\<close> of a non-zero \<open>x\<close>; the unit in the last
  place of a 53-bit significand is \<open>2 powi (expo x - 52)\<close>, and not smaller than the
  subnormal spacing \<open>2 powi (- 1074)\<close>. Overflow to infinity (magnitudes from
  \<open>2 ^ 1024\<close>) and NaN are outside this model; the numbers the program computes from
  its table are far from both.
\<close>

type_synonym pyfloat = rat

definition rne :: "rat \<Rightarrow> int" where
  "rne x = (let f = \<lfloor>x\<rfloor>; r = x - of_int f
            in if r < 1 / 2 then f
               else if 1 / 2 < r then f + 1
               else if even f then f else f + 1)"

definition expo :: "rat \<Rightarrow> int" where
  "expo x = (let (n, d) = quotient_of \<bar>x\<bar>; k = bitlen n - bitlen d
             in if 2 powi k \<le> \<bar>x\<bar> then k else k - 1)"

definition fl :: "rat \<Rightarrow> pyfloat" where
  "fl x = (if x = 0 then 0
           else let u = 2 powi (max (expo x - 52) (- 1074))
                in of_int (rne (x / u)) * u)"

definition fmul :: "pyfloat \<Rightarrow> pyfloat \<Rightarrow> pyfloat" where
  "fmul a b = fl (a * b)"

definition fadd :: "pyfloat \<Rightarrow> pyfloat \<Rightarrow> pyfloat" where
  "fadd a b = fl (a + b)"

definition fdiv :: "pyfloat \<Rightarrow> pyfloat \<Rightarrow> pyfloat" where
  "fdiv a b = fl (a / b)"

text \<open>
  The builtin \<^verbatim>\<open>sum\<close> starts from the integer \<open>0\<close> and adds the items from left to
  right, one rounded addition each. This is \<^verbatim>\<open>sum\<close> of CPython up to version 3.11;
  later versions carry a compensation term through the loop, which is not modelled.
\<close>

definition py_sum :: "pyfloat list \<Rightarrow> pyfloat" where
  "py_sum xs = foldl fadd 0 xs"

subsection \<open>Dictionaries and exceptions\<close>

text \<open>
  A \<^verbatim>\<open>dict\<close> keeps its keys in insertion order, which is the order \<^verbatim>\<open>values()\<close>
  yields: it is an association list. \<^verbatim>\<open>d.get(k, default)\<close> never raises;
  \<^verbatim>\<open>d[k]\<close> raises \<^verbatim>\<open>KeyError\<close> on a missing key; \<^verbatim>\<open>d[k] = v\<close> replaces the value of
  a present key in place and appends a new key at the end.
\<close>

datatype py_error = KeyError | ValueError

type_synonym ('k, 'v) dict = "('k \<times> 'v) list"

definition dict_get :: "('k, 'v) dict \<Rightarrow> 'k \<Rightarrow> 'v \<Rightarrow> 'v" where
  "dict_get d k dflt = (case map_of d k of None \<Rightarrow> dflt | Some v \<Rightarrow> v)"

definition getitem :: "(string, 'v) dict \<Rightarrow> string \<Rightarrow> py_error + 'v" where
  "getitem d k = (case map_of d k of None \<Rightarrow> Inl KeyError | Some v \<Rightarrow> Inr v)"

definition setitem :: "('k, 'v) dict \<Rightarrow> 'k \<Rightarrow> 'v \<Rightarrow> ('k, 'v) dict" where
  "setitem d k v = AList.update k v d"

definition bind_err :: "'e + 'a \<Rightarrow> ('a \<Rightarrow> 'e + 'b) \<Rightarrow> 'e + 'b" where
  "bind_err r f = (case r of Inl e \<Rightarrow> Inl e | Inr v \<Rightarrow> f v)"

section \<open>The energy estimator of \<^verbatim>\<open>app.py\<close>\<close>

subsection \<open>\<^verbatim>\<open>calculate_base_energy\<close>\<close>

definition base_consumption :: "(string, (string, (string, pyfloat) dict) dict) dict" where
  "base_consumption =
    [(''flat'',
       [(''1BHK'', [(''lighting'', fl 1.5), (''fan_ac'', fl 4.0), (''appliances'', fl 3.5),
                    (''water_heater'', fl 2.0), (''refrigerator'', fl 1.8)]),
        (''2BHK'', [(''lighting'', fl 2.2), (''fan_ac'', fl 6.0), (''appliances'', fl 4.5),
                    (''water_heater'', fl 2.5), (''refrigerator'', fl 2.0)]),
        (''3BHK'', [(''lighting'', fl 3.0), (''fan_ac'', fl 8.0), (''appliances'', fl 6.0),
                    (''water_heater'', fl 3.0), (''refrigerator'', fl 2.2)])]),
     (''tenement'',
       [(''1BHK'', [(''lighting'', fl 1.8), (''fan_ac'', fl 5.0), (''appliances'', fl 3.0),
                    (''water_heater'', fl 1.5), (''refrigerator'', fl 1.6)]),
        (''2BHK'', [(''lighting'', fl 2.5), (''fan_ac'', fl 7.0), (''appliances'', fl 4.0),
                    (''water_heater'', fl 2.0), (''refrigerator'', fl 1.8)]),
        (''3BHK'', [(''lighting'', fl 3.5), (''fan_ac'', fl 9.0), (''appliances'', fl 5.5),
                    (''water_heater'', fl 2.5), (''refrigerator'', fl 2.0)])])]"

definition calculate_base_energy :: "string \<Rightarrow> string \<Rightarrow> (string, pyfloat) dict" where
  "calculate_base_energy flat_tenement bhk =
     dict_get (dict_get base_consumption flat_tenement []) bhk []"

subsection \<open>\<^verbatim>\<open>calculate_weather_adjustment\<close>\<close>

text \<open>
  The temperature is the integer of the slider or any finite float; both compare
  exactly with the integer thresholds, so it is a real number here.
\<close>

definition calculate_weather_adjustment :: "real \<Rightarrow> pyfloat \<Rightarrow> pyfloat" where
  "calculate_weather_adjustment temperature base_fan_ac =
     (if temperature < 18 then fmul base_fan_ac (fl 0.1)
      else if temperature < 22 then fmul base_fan_ac (fl 0.3)
      else if temperature < 26 then fmul base_fan_ac (fl 0.6)
      else if temperature < 30 then fmul base_fan_ac (fl 0.8)
      else if temperature < 35 then fmul base_fan_ac (fl 1.0)
      else fmul base_fan_ac (fl 1.3))"

text \<open>
  The source has no function that returns the multiplier alone. The multiplier it
  applies at a temperature is what the adjustment returns for the base value \<open>1.0\<close>.
\<close>

definition weather_multiplier :: "real \<Rightarrow> pyfloat" where
  "weather_multiplier temperature = calculate_weather_adjustment temperature 1"

subsection \<open>\<^verbatim>\<open>calculate_daily_energy\<close>\<close>

text \<open>
  The result is \<open>Inr None\<close> where the source returns \<^verbatim>\<open>None\<close>, \<open>Inr (Some d)\<close> where it
  returns the dictionary \<open>d\<close>, and \<open>Inl e\<close> where a subscript raises. An empty dictionary
  is false in a condition.
\<close>

definition calculate_daily_energy ::
  "string \<Rightarrow> string \<Rightarrow> real \<Rightarrow> py_error + (string, pyfloat) dict option" where
  "calculate_daily_energy flat_tenement bhk temperature =
     (let base_energy = calculate_base_energy flat_tenement bhk in
      if base_energy = [] then Inr None
      else
        bind_err (getitem base_energy ''fan_ac'') (\<lambda>base_fan_ac.
        let adjusted_fan_ac = calculate_weather_adjustment temperature base_fan_ac in
        bind_err (getitem base_energy ''lighting'') (\<lambda>lighting.
        bind_err (getitem base_energy ''appliances'') (\<lambda>appliances.
        bind_err (getitem base_energy ''water_heater'') (\<lambda>water_heater.
        bind_err (getitem base_energy ''refrigerator'') (\<lambda>refrigerator.
        let daily_consumption =
              [(''lighting'', lighting), (''fan_ac'', adjusted_fan_ac),
               (''appliances'', appliances), (''water_heater'', water_heater),
               (''refrigerator'', refrigerator)]
        in Inr (Some (setitem daily_consumption ''total''
                        (py_sum (map snd daily_consumption))))))))))"

subsection \<open>The weather description of \<^verbatim>\<open>main\<close>\<close>

text \<open>
  For each day \<^verbatim>\<open>main\<close> chooses a description and a colour gradient from the
  temperature of the slider, with a cascade of its own. The description is given
  here without the pictogram that precedes it in the source.
\<close>

definition weather_desc :: "real \<Rightarrow> string \<times> string" where
  "weather_desc temperature =
     (if temperature < 18 then
        (''Very Cold'', ''linear-gradient(135deg, #74b9ff, #0984e3)'')
      else if temperature < 22 then
        (''Cool'', ''linear-gradient(135deg, #00cec9, #00b894)'')
      else if temperature < 26 then
        (''Comfortable'', ''linear-gradient(135deg, #00b894, #55a3ff)'')
      else if temperature < 30 then
        (''Warm'', ''linear-gradient(135deg, #fdcb6e, #f39c12)'')
      else if temperature < 35 then
        (''Hot'', ''linear-gradient(135deg, #fd79a8, #e84393)'')
      else
        (''Very Hot'', ''linear-gradient(135deg, #ff6b6b, #ee5253)''))"

subsection \<open>The weekly summary of \<^verbatim>\<open>main\<close>\<close>

text \<open>
  \<^verbatim>\<open>main\<close> appends one row to \<^verbatim>\<open>weekly_data\<close> for each day whose estimate is
  present, and shows the summary only under the guard \<^verbatim>\<open>if weekly_data:\<close>. The
  summary is computed by pandas on the column \<^verbatim>\<open>Total Energy\<close> of the data frame of
  the rows, whose index is \<open>0, 1, \<dots>\<close>:
  \<^item> \<^verbatim>\<open>sum()\<close> adds the values from left to right, as numpy does for fewer than
    eight values (the week has at most seven rows);
  \<^item> \<^verbatim>\<open>mean()\<close> divides that sum by the number of rows;
  \<^item> \<^verbatim>\<open>idxmax()\<close> scans from the left and moves to a later row only when its value
    is strictly greater; on an empty column it raises \<^verbatim>\<open>ValueError\<close>;
  \<^item> \<^verbatim>\<open>df.loc[i, 'Day']\<close> reads the day of row \<open>i\<close> and raises \<^verbatim>\<open>KeyError\<close> for an
    index that is no row.
\<close>

record weekly_row =
  Day :: string
  Temperature :: real
  Total_Energy :: pyfloat
  Lighting :: pyfloat
  Fan_AC :: pyfloat
  Appliances :: pyfloat
  Water_Heater :: pyfloat
  Refrigerator :: pyfloat

definition series_sum :: "pyfloat list \<Rightarrow> pyfloat" where
  "series_sum xs = foldl fadd 0 xs"

definition series_mean :: "pyfloat list \<Rightarrow> pyfloat" where
  "series_mean xs = fdiv (series_sum xs) (of_nat (length xs))"

fun idxmax_scan :: "pyfloat list \<Rightarrow> nat \<Rightarrow> nat \<Rightarrow> pyfloat \<Rightarrow> nat" where
  "idxmax_scan [] i best_i best = best_i"
| "idxmax_scan (x # xs) i best_i best =
     (if best < x then idxmax_scan xs (Suc i) i x
      else idxmax_scan xs (Suc i) best_i best)"

definition series_idxmax :: "pyfloat list \<Rightarrow> py_error + nat" where
  "series_idxmax xs =
     (case xs of [] \<Rightarrow> Inl ValueError | x # rest \<Rightarrow> Inr (idxmax_scan rest 1 0 x))"

definition loc_Day :: "weekly_row list \<Rightarrow> nat \<Rightarrow> py_error + string" where
  "loc_Day df i = (if i < length df then Inr (Day (df ! i)) else Inl KeyError)"

record weekly_summary =
  total_weekly_energy :: pyfloat
  average_daily_energy :: pyfloat
  estimated_monthly_bill :: pyfloat
  highest_day :: string

text \<open>
  The result is \<open>Inr None\<close> where the guard skips the summary, \<open>Inr (Some s)\<close> where
  the four metrics \<open>s\<close> are shown, and \<open>Inl e\<close> where an exception is raised.
\<close>

definition main_weekly_summary :: "weekly_row list \<Rightarrow> py_error + weekly_summary option" where
  "main_weekly_summary weekly_data =
     (if weekly_data = [] then Inr None
      else
        let col = map Total_Energy weekly_data in
        bind_err (series_idxmax col) (\<lambda>i.
        bind_err (loc_Day weekly_data i) (\<lambda>day.
        Inr (Some \<lparr>total_weekly_energy = series_sum col,
                    average_daily_energy = series_mean col,
                    estimated_monthly_bill = fmul (fmul (series_sum col) (fl 4.3)) 6,
                    highest_day = day\<rparr>))))"

section \<open>Properties of the rounding\<close>

text \<open>The rounding gives the binary64 values of some literals, as Python prints them.\<close>

lemma fl_literal_values:
  "fl 0.1 = 3602879701896397 / 2 ^ 55"
  "fl 0.6 = 5404319552844595 / 2 ^ 53"
  "fl 3.6 = 8106479329266893 / 2 ^ 51"
  "fl 14.8 = 8331659310635418 / 2 ^ 49"
  "fl 6.5 = 13 / 2"
  by code_simp+

text \<open>
  Rounding to the nearest integer is monotone and leaves integers alone; \<open>expo\<close> is
  the binary exponent; hence \<open>fl\<close> is monotone on the non-negative numbers.
\<close>

lemma rne_cases: "rne x = \<lfloor>x\<rfloor> \<or> rne x = \<lfloor>x\<rfloor> + 1"
  by (simp add: rne_def Let_def)

lemma rne_of_int: "rne (of_int n) = n"
  by (simp add: rne_def)

lemma rne_mono:
  assumes "x \<le> y"
  shows "rne x \<le> rne y"
proof (cases "\<lfloor>x\<rfloor> = \<lfloor>y\<rfloor>")
  case True
  with assms have "x - of_int \<lfloor>x\<rfloor> \<le> y - of_int \<lfloor>y\<rfloor>" by simp
  with True show ?thesis by (auto simp add: rne_def Let_def)
next
  case False
  with assms have "\<lfloor>x\<rfloor> < \<lfloor>y\<rfloor>" using floor_mono [of x y] by linarith
  moreover have "rne x \<le> \<lfloor>x\<rfloor> + 1" using rne_cases [of x] by linarith
  moreover have "\<lfloor>y\<rfloor> \<le> rne y" using rne_cases [of y] by linarith
  ultimately show ?thesis by linarith
qed

lemma expo_bounds:
  assumes "x \<noteq> 0"
  shows "2 powi (expo x) \<le> \<bar>x\<bar> \<and> \<bar>x\<bar> < 2 powi (expo x + 1)"
proof -
  obtain n d where q: "quotient_of \<bar>x\<bar> = (n, d)" by (cases "quotient_of \<bar>x\<bar>") auto
  have d: "0 < d" using q by (rule quotient_of_denom_pos)
  have a: "\<bar>x\<bar> = of_int n / of_int d" using q by (rule quotient_of_div)
  have apos: "0 < \<bar>x\<bar>" using assms by simp
  have n: "0 < n"
    using apos d unfolding a by (simp add: zero_less_divide_iff)
  have bn: "1 \<le> bitlen n" "1 \<le> bitlen d"
    using n d by (auto simp add: bitlen_alt_def)
  have n1: "(2::rat) powi (bitlen n - 1) \<le> of_int n" and n2: "of_int n < (2::rat) powi (bitlen n)"
  proof -
    have "(2::int) ^ nat (bitlen n - 1) \<le> n" "n < 2 ^ nat (bitlen n)"
      using bitlen_bounds [OF n] by auto
    then have "(of_int (2 ^ nat (bitlen n - 1)) :: rat) \<le> of_int n"
      "(of_int n :: rat) < of_int (2 ^ nat (bitlen n))"
      by (simp_all only: of_int_le_iff of_int_less_iff)
    then show "(2::rat) powi (bitlen n - 1) \<le> of_int n" "of_int n < (2::rat) powi (bitlen n)"
      using bn by (simp_all add: power_int_def)
  qed
  have d1: "(2::rat) powi (bitlen d - 1) \<le> of_int d" and d2: "of_int d < (2::rat) powi (bitlen d)"
  proof -
    have "(2::int) ^ nat (bitlen d - 1) \<le> d" "d < 2 ^ nat (bitlen d)"
      using bitlen_bounds [OF d] by auto
    then have "(of_int (2 ^ nat (bitlen d - 1)) :: rat) \<le> of_int d"
      "(of_int d :: rat) < of_int (2 ^ nat (bitlen d))"
      by (simp_all only: of_int_le_iff of_int_less_iff)
    then show "(2::rat) powi (bitlen d - 1) \<le> of_int d" "of_int d < (2::rat) powi (bitlen d)"
      using bn by (simp_all add: power_int_def)
  qed
  let ?k = "bitlen n - bitlen d"
  have dpos: "(0::rat) < of_int d" using d by simp
  have upper: "\<bar>x\<bar> < 2 powi (?k + 1)"
  proof -
    have "of_int n < (2::rat) powi (?k + 1) * 2 powi (bitlen d - 1)"
      using n2 by (simp flip: power_int_add)
    also have "\<dots> \<le> 2 powi (?k + 1) * of_int d"
      using d1 by (intro mult_left_mono) simp_all
    finally show ?thesis unfolding a using dpos by (simp add: pos_divide_less_eq)
  qed
  have lower: "2 powi (?k - 1) < \<bar>x\<bar>"
  proof -
    have "(2::rat) powi (?k - 1) * of_int d < 2 powi (?k - 1) * 2 powi (bitlen d)"
      using d2 by (intro mult_strict_left_mono) simp_all
    also have "\<dots> = 2 powi (bitlen n - 1)"
      by (simp flip: power_int_add)
    also have "\<dots> \<le> of_int n" by (rule n1)
    finally show ?thesis unfolding a using dpos by (simp add: pos_less_divide_eq)
  qed
  show ?thesis
  proof (cases "2 powi ?k \<le> \<bar>x\<bar>")
    case True
    then have "expo x = ?k" by (simp add: expo_def q)
    with True upper show ?thesis by simp
  next
    case False
    then have "expo x = ?k - 1" by (simp add: expo_def q)
    with False lower show ?thesis by simp
  qed
qed

lemma expo_mono:
  assumes "0 < x" and "x \<le> y"
  shows "expo x \<le> expo y"
proof (rule ccontr)
  assume "\<not> expo x \<le> expo y"
  then have "expo y + 1 \<le> expo x" by simp
  then have "(2::rat) powi (expo y + 1) \<le> 2 powi (expo x)"
    by (intro power_int_increasing) simp_all
  moreover have "2 powi (expo x) \<le> x" using expo_bounds [of x] assms by simp
  moreover have "y < 2 powi (expo y + 1)" using expo_bounds [of y] assms by simp
  ultimately show False using assms by linarith
qed

lemma fl_upper:
  assumes "0 < x"
  shows "fl x \<le> 2 powi (max (expo x - 52) (- 1074) + 53)"
proof -
  let ?e = "max (expo x - 52) (- 1074)"
  let ?u = "(2::rat) powi ?e"
  have u: "0 < ?u" by simp
  have "x < 2 powi (expo x + 1)" using expo_bounds [of x] assms by simp
  also have "\<dots> \<le> 2 powi (?e + 53)" by (intro power_int_increasing) simp_all
  also have "\<dots> = 2 ^ 53 * ?u" by (simp add: power_int_add)
  finally have "x / ?u \<le> of_int (2 ^ 53)" using u by (simp add: pos_divide_le_eq)
  then have "rne (x / ?u) \<le> 2 ^ 53" using rne_mono rne_of_int by metis
  then have "(of_int (rne (x / ?u)) :: rat) \<le> of_int (2 ^ 53)" by (simp only: of_int_le_iff)
  then have "of_int (rne (x / ?u)) * ?u \<le> 2 ^ 53 * ?u" using u by simp
  also have "\<dots> = 2 powi (?e + 53)" by (simp add: power_int_add)
  finally show ?thesis using assms by (simp add: fl_def Let_def)
qed

lemma fl_lower:
  assumes "0 < x" and "- 1074 \<le> expo x - 52"
  shows "2 powi (expo x) \<le> fl x"
proof -
  let ?e = "expo x - 52"
  let ?u = "(2::rat) powi ?e"
  have e: "max (expo x - 52) (- 1074) = ?e" using assms(2) by simp
  have u: "0 < ?u" by simp
  have p: "2 ^ 52 * ?u = 2 powi (expo x)"
  proof -
    have "(2::rat) powi (expo x) = 2 powi (?e + 52)" by simp
    also have "\<dots> = 2 ^ 52 * ?u" by (subst power_int_add) simp_all
    finally show ?thesis by simp
  qed
  have "2 powi (expo x) \<le> x" using expo_bounds [of x] assms by simp
  then have "2 ^ 52 * ?u \<le> x" by (simp only: p)
  then have "of_int (2 ^ 52) \<le> x / ?u" using u by (simp add: pos_le_divide_eq)
  then have "2 ^ 52 \<le> rne (x / ?u)" using rne_mono rne_of_int by metis
  then have "(of_int (2 ^ 52) :: rat) \<le> of_int (rne (x / ?u))" by (simp only: of_int_le_iff)
  then have "2 ^ 52 * ?u \<le> of_int (rne (x / ?u)) * ?u" using u by simp
  then have "2 powi (expo x) \<le> of_int (rne (x / ?u)) * ?u" by (simp only: p)
  then show ?thesis using assms(1) e by (simp add: fl_def Let_def)
qed

lemma fl_nonneg:
  assumes "0 \<le> x"
  shows "0 \<le> fl x"
proof (cases "x = 0")
  case True
  then show ?thesis by (simp add: fl_def)
next
  case False
  let ?u = "(2::rat) powi (max (expo x - 52) (- 1074))"
  have "0 \<le> x / ?u" using assms by simp
  then have "rne (of_int 0) \<le> rne (x / ?u)" by (intro rne_mono) simp
  then have "0 \<le> rne (x / ?u)" by (simp only: rne_of_int)
  then show ?thesis using False by (simp add: fl_def Let_def)
qed

lemma fl_mono:
  assumes "0 \<le> x" and "x \<le> y"
  shows "fl x \<le> fl y"
proof (cases "x = 0")
  case True
  then show ?thesis using fl_nonneg [of y] assms by (simp add: fl_def)
next
  case False
  with assms have x: "0 < x" and y: "0 < y" by simp_all
  let ?ex = "max (expo x - 52) (- 1074)"
  let ?ey = "max (expo y - 52) (- 1074)"
  have le: "?ex \<le> ?ey" using expo_mono [OF x assms(2)] by simp
  show ?thesis
  proof (cases "?ex = ?ey")
    case True
    let ?u = "(2::rat) powi ?ex"
    have "x / ?u \<le> y / ?u" using assms(2) by (simp add: divide_right_mono)
    then have "rne (x / ?u) \<le> rne (y / ?u)" by (rule rne_mono)
    then have "(of_int (rne (x / ?u)) :: rat) * ?u \<le> of_int (rne (y / ?u)) * ?u"
      by simp
    then show ?thesis using x y True by (simp add: fl_def Let_def)
  next
    case False
    with le have lt: "?ex + 1 \<le> ?ey" by simp
    then have ey: "?ey = expo y - 52" and big: "- 1074 \<le> expo y - 52" by simp_all
    have "fl x \<le> 2 powi (?ex + 53)" by (rule fl_upper [OF x])
    also have "\<dots> \<le> 2 powi (expo y)"
      using lt ey by (intro power_int_increasing) simp_all
    also have "\<dots> \<le> fl y" by (rule fl_lower [OF y big])
    finally show ?thesis .
  qed
qed

section \<open>The base profile table\<close>

text \<open>
  C1. For each of the six pairs of a housing type in \<open>{flat, tenement}\<close> and a room
  configuration in \<open>{1BHK, 2BHK, 3BHK}\<close>, the base profile lookup returns exactly the
  five values of the table: lighting, fan/AC (the source's key is \<^verbatim>\<open>fan_ac\<close>),
  appliances, water heater and refrigerator, each the float its decimal literal
  denotes. For flat/2BHK these are 2.2, 6.0, 4.5, 2.5 and 2.0.
\<close>

theorem base_profile_table:
  "calculate_base_energy ''flat'' ''1BHK'' =
     [(''lighting'', fl 1.5), (''fan_ac'', fl 4.0), (''appliances'', fl 3.5),
      (''water_heater'', fl 2.0), (''refrigerator'', fl 1.8)] \<and>
   calculate_base_energy ''flat'' ''2BHK'' =
     [(''lighting'', fl 2.2), (''fan_ac'', fl 6.0), (''appliances'', fl 4.5),
      (''water_heater'', fl 2.5), (''refrigerator'', fl 2.0)] \<and>
   calculate_base_energy ''flat'' ''3BHK'' =
     [(''lighting'', fl 3.0), (''fan_ac'', fl 8.0), (''appliances'', fl 6.0),
      (''water_heater'', fl 3.0), (''refrigerator'', fl 2.2)] \<and>
   calculate_base_energy ''tenement'' ''1BHK'' =
     [(''lighting'', fl 1.8), (''fan_ac'', fl 5.0), (''appliances'', fl 3.0),
      (''water_heater'', fl 1.5), (''refrigerator'', fl 1.6)] \<and>
   calculate_base_energy ''tenement'' ''2BHK'' =
     [(''lighting'', fl 2.5), (''fan_ac'', fl 7.0), (''appliances'', fl 4.0),
      (''water_heater'', fl 2.0), (''refrigerator'', fl 1.8)] \<and>
   calculate_base_energy ''tenement'' ''3BHK'' =
     [(''lighting'', fl 3.5), (''fan_ac'', fl 9.0), (''appliances'', fl 5.5),
      (''water_heater'', fl 2.5), (''refrigerator'', fl 2.0)]"
  by (simp add: calculate_base_energy_def base_consumption_def dict_get_def)

section \<open>The weather multiplier\<close>

text \<open>Multiplying by the float \<open>1.0\<close> is exact, so the multiplier is the literal of the band.\<close>

lemma fmul_one_literal:
  "fmul 1 (fl 0.1) = fl 0.1" "fmul 1 (fl 0.3) = fl 0.3" "fmul 1 (fl 0.6) = fl 0.6"
  "fmul 1 (fl 0.8) = fl 0.8" "fmul 1 (fl 1.0) = fl 1.0" "fmul 1 (fl 1.3) = fl 1.3"
  by code_simp+

lemma weather_multiplier_cascade:
  "weather_multiplier t =
     (if t < 18 then fl 0.1 else if t < 22 then fl 0.3 else if t < 26 then fl 0.6
      else if t < 30 then fl 0.8 else if t < 35 then fl 1.0 else fl 1.3)"
  by (simp only: weather_multiplier_def calculate_weather_adjustment_def fmul_one_literal)

lemma adjustment_is_product:
  "calculate_weather_adjustment t b = fmul b (weather_multiplier t)"
  by (simp only: weather_multiplier_cascade calculate_weather_adjustment_def if_distrib [of "fmul b"])


text \<open>
  C2. The multiplier is 0.1 below 18 degrees, 0.3 from 18 and below 22, 0.6 from 22 and
  below 26, 0.8 from 26 and below 30, 1.0 from 30 and below 35, and 1.3 from 35 on, so
  every band boundary belongs to the upper band. Every temperature, however extreme,
  gets one of these six multipliers, and the adjusted fan/AC value is the base value
  times the multiplier.
\<close>

theorem weather_multiplier_bands:
  "(t < 18 \<longrightarrow> weather_multiplier t = fl 0.1) \<and>
   (18 \<le> t \<and> t < 22 \<longrightarrow> weather_multiplier t = fl 0.3) \<and>
   (22 \<le> t \<and> t < 26 \<longrightarrow> weather_multiplier t = fl 0.6) \<and>
   (26 \<le> t \<and> t < 30 \<longrightarrow> weather_multiplier t = fl 0.8) \<and>
   (30 \<le> t \<and> t < 35 \<longrightarrow> weather_multiplier t = fl 1.0) \<and>
   (35 \<le> t \<longrightarrow> weather_multiplier t = fl 1.3) \<and>
   weather_multiplier t \<in> {fl 0.1, fl 0.3, fl 0.6, fl 0.8, fl 1.0, fl 1.3} \<and>
   calculate_weather_adjustment t b = fmul b (weather_multiplier t)"
proof -
  have "weather_multiplier t \<in> {fl 0.1, fl 0.3, fl 0.6, fl 0.8, fl 1.0, fl 1.3}"
    unfolding weather_multiplier_cascade by auto
  moreover have "t < 18 \<longrightarrow> weather_multiplier t = fl 0.1"
    unfolding weather_multiplier_cascade by auto
  moreover have "18 \<le> t \<and> t < 22 \<longrightarrow> weather_multiplier t = fl 0.3"
    unfolding weather_multiplier_cascade by auto
  moreover have "22 \<le> t \<and> t < 26 \<longrightarrow> weather_multiplier t = fl 0.6"
    unfolding weather_multiplier_cascade by auto
  moreover have "26 \<le> t \<and> t < 30 \<longrightarrow> weather_multiplier t = fl 0.8"
    unfolding weather_multiplier_cascade by auto
  moreover have "30 \<le> t \<and> t < 35 \<longrightarrow> weather_multiplier t = fl 1.0"
    unfolding weather_multiplier_cascade by auto
  moreover have "35 \<le> t \<longrightarrow> weather_multiplier t = fl 1.3"
    unfolding weather_multiplier_cascade by auto
  ultimately show ?thesis
    using adjustment_is_product by blast
qed

theorem weather_multiplier_bands_witness:
  "weather_multiplier 17.9 = fl 0.1 \<and> weather_multiplier 18 = fl 0.3 \<and>
   weather_multiplier 21.99 = fl 0.3 \<and> weather_multiplier 22 = fl 0.6 \<and>
   weather_multiplier 29.999 = fl 0.8 \<and> weather_multiplier 30 = fl 1.0 \<and>
   weather_multiplier 34.999 = fl 1.0 \<and> weather_multiplier 35 = fl 1.3 \<and>
   weather_multiplier (- 50) = fl 0.1 \<and> weather_multiplier 100 = fl 1.3"
proof -
  have "weather_multiplier 17.9 = fl 0.1"
    using weather_multiplier_bands [of "17.9"] by simp
  moreover have "weather_multiplier 18 = fl 0.3"
    using weather_multiplier_bands [of 18] by simp
  moreover have "weather_multiplier 21.99 = fl 0.3"
    using weather_multiplier_bands [of "21.99"] by simp
  moreover have "weather_multiplier 22 = fl 0.6"
    using weather_multiplier_bands [of 22] by simp
  moreover have "weather_multiplier 29.999 = fl 0.8"
    using weather_multiplier_bands [of "29.999"] by simp
  moreover have "weather_multiplier 30 = fl 1.0"
    using weather_multiplier_bands [of 30] by simp
  moreover have "weather_multiplier 34.999 = fl 1.0"
    using weather_multiplier_bands [of "34.999"] by simp
  moreover have "weather_multiplier 35 = fl 1.3"
    using weather_multiplier_bands [of 35] by simp
  moreover have "weather_multiplier (- 50) = fl 0.1"
    using weather_multiplier_bands [of "- 50"] by simp
  moreover have "weather_multiplier 100 = fl 1.3"
    using weather_multiplier_bands [of 100] by simp
  ultimately show ?thesis by blast
qed

section \<open>The daily estimate\<close>

lemma base_energy_valid:
  assumes "h \<in> {''flat'', ''tenement''}" and "r \<in> {''1BHK'', ''2BHK'', ''3BHK''}"
  shows "\<exists>l f a w g. calculate_base_energy h r =
           [(''lighting'', l), (''fan_ac'', f), (''appliances'', a),
            (''water_heater'', w), (''refrigerator'', g)]"
  using assms by (auto simp add: calculate_base_energy_def base_consumption_def dict_get_def)

lemma base_energy_invalid:
  assumes "h \<notin> {''flat'', ''tenement''} \<or> r \<notin> {''1BHK'', ''2BHK'', ''3BHK''}"
  shows "calculate_base_energy h r = []"
  using assms by (auto simp add: calculate_base_energy_def base_consumption_def dict_get_def)

lemma daily_energy_of_profile:
  assumes "calculate_base_energy h r =
           [(''lighting'', l), (''fan_ac'', f), (''appliances'', a),
            (''water_heater'', w), (''refrigerator'', g)]"
  shows "calculate_daily_energy h r t =
           Inr (Some [(''lighting'', l), (''fan_ac'', calculate_weather_adjustment t f),
                      (''appliances'', a), (''water_heater'', w), (''refrigerator'', g),
                      (''total'', py_sum [l, calculate_weather_adjustment t f, a, w, g])])"
  by (simp add: calculate_daily_energy_def assms getitem_def bind_err_def setitem_def Let_def)

lemma daily_energy_invalid:
  assumes "calculate_base_energy h r = []"
  shows "calculate_daily_energy h r t = Inr None"
  by (simp add: calculate_daily_energy_def assms)

text \<open>
  C3. For a valid pair of housing type and room configuration and any temperature, the
  daily estimate is present; its lighting, appliances, water heater and refrigerator
  values are those of the base profile, its fan/AC value is the base fan/AC value times
  the weather multiplier of the temperature, and its total is the sum of these five
  values.
\<close>

theorem daily_energy_breakdown:
  assumes "h \<in> {''flat'', ''tenement''}" and "r \<in> {''1BHK'', ''2BHK'', ''3BHK''}"
  shows "\<exists>l f a w g.
           calculate_base_energy h r =
             [(''lighting'', l), (''fan_ac'', f), (''appliances'', a),
              (''water_heater'', w), (''refrigerator'', g)] \<and>
           calculate_daily_energy h r t =
             Inr (Some [(''lighting'', l), (''fan_ac'', fmul f (weather_multiplier t)),
                        (''appliances'', a), (''water_heater'', w), (''refrigerator'', g),
                        (''total'', py_sum [l, fmul f (weather_multiplier t), a, w, g])])"
proof -
  from base_energy_valid [OF assms] obtain l f a w g where
    base: "calculate_base_energy h r =
             [(''lighting'', l), (''fan_ac'', f), (''appliances'', a),
              (''water_heater'', w), (''refrigerator'', g)]"
    by blast
  show ?thesis
    using base daily_energy_of_profile [OF base, of t]
    unfolding adjustment_is_product by blast
qed

theorem daily_energy_breakdown_witness:
  "calculate_daily_energy ''flat'' ''2BHK'' 25 =
     Inr (Some [(''lighting'', fl 2.2), (''fan_ac'', fmul (fl 6.0) (fl 0.6)),
                (''appliances'', fl 4.5), (''water_heater'', fl 2.5),
                (''refrigerator'', fl 2.0),
                (''total'', py_sum [fl 2.2, fmul (fl 6.0) (fl 0.6), fl 4.5, fl 2.5, fl 2.0])])"
proof -
  have base: "calculate_base_energy ''flat'' ''2BHK'' =
     [(''lighting'', fl 2.2), (''fan_ac'', fl 6.0), (''appliances'', fl 4.5),
      (''water_heater'', fl 2.5), (''refrigerator'', fl 2.0)]"
    by (simp add: calculate_base_energy_def base_consumption_def dict_get_def)
  have "weather_multiplier 25 = fl 0.6"
    unfolding weather_multiplier_cascade by simp
  then show ?thesis
    using daily_energy_breakdown [of "''flat''" "''2BHK''" 25] base by auto
qed

text \<open>
  C6. When the housing type is not flat or tenement, or the room configuration is not
  1BHK, 2BHK or 3BHK, the base profile lookup returns the empty dictionary and the daily
  estimate returns \<^verbatim>\<open>None\<close>. For no strings and no temperature does the daily estimate
  raise an exception.
\<close>

theorem invalid_configuration_not_found:
  "(h \<notin> {''flat'', ''tenement''} \<or> r \<notin> {''1BHK'', ''2BHK'', ''3BHK''} \<longrightarrow>
      calculate_base_energy h r = [] \<and> calculate_daily_energy h r t = Inr None) \<and>
   (\<exists>res. calculate_daily_energy h r t = Inr res)"
proof (cases "h \<in> {''flat'', ''tenement''} \<and> r \<in> {''1BHK'', ''2BHK'', ''3BHK''}")
  case True
  then obtain l f a w g where
    "calculate_base_energy h r =
       [(''lighting'', l), (''fan_ac'', f), (''appliances'', a),
        (''water_heater'', w), (''refrigerator'', g)]"
    using base_energy_valid [of h r] by blast
  from daily_energy_of_profile [OF this, of t] True show ?thesis by blast
next
  case False
  then have "calculate_base_energy h r = []"
    using base_energy_invalid [of h r] by blast
  with daily_energy_invalid [OF this, of t] show ?thesis by simp
qed

theorem invalid_configuration_not_found_witness:
  "calculate_base_energy ''villa'' ''2BHK'' = [] \<and>
   calculate_daily_energy ''villa'' ''2BHK'' 25 = Inr None \<and>
   calculate_base_energy ''flat'' ''4BHK'' = [] \<and>
   calculate_daily_energy ''flat'' ''4BHK'' 25 = Inr None \<and>
   calculate_daily_energy ''Flat'' ''2bhk'' 25 = Inr None \<and>
   calculate_daily_energy [] [] 25 = Inr None"
  using invalid_configuration_not_found [of "''villa''" "''2BHK''" 25]
    invalid_configuration_not_found [of "''flat''" "''4BHK''" 25]
    invalid_configuration_not_found [of "''Flat''" "''2bhk''" 25]
    invalid_configuration_not_found [of "[]" "[]" 25]
  by simp

text \<open>
  C7. For a valid pair and two temperatures, both daily estimates are present, have the
  same keys, and agree on every key other than fan/AC and total; in particular they
  agree on lighting, appliances, water heater and refrigerator, each of which is the
  base profile's value.
\<close>

theorem daily_energy_frame:
  assumes "h \<in> {''flat'', ''tenement''}" and "r \<in> {''1BHK'', ''2BHK'', ''3BHK''}"
  shows "\<exists>d1 d2.
           calculate_daily_energy h r t1 = Inr (Some d1) \<and>
           calculate_daily_energy h r t2 = Inr (Some d2) \<and>
           map fst d1 = map fst d2 \<and>
           (\<forall>k. k \<noteq> ''fan_ac'' \<and> k \<noteq> ''total'' \<longrightarrow> map_of d1 k = map_of d2 k) \<and>
           (\<forall>k \<in> {''lighting'', ''appliances'', ''water_heater'', ''refrigerator''}.
              \<exists>v. getitem d1 k = Inr v \<and> getitem d2 k = Inr v \<and>
                  getitem (calculate_base_energy h r) k = Inr v)"
proof -
  from base_energy_valid [OF assms] obtain l f a w g where
    base: "calculate_base_energy h r =
             [(''lighting'', l), (''fan_ac'', f), (''appliances'', a),
              (''water_heater'', w), (''refrigerator'', g)]"
    by blast
  show ?thesis
    unfolding daily_energy_of_profile [OF base] base
    by (simp add: getitem_def)
qed

theorem daily_energy_frame_witness:
  "\<exists>d1 d2.
     calculate_daily_energy ''flat'' ''2BHK'' 15 = Inr (Some d1) \<and>
     calculate_daily_energy ''flat'' ''2BHK'' 40 = Inr (Some d2) \<and>
     getitem d1 ''lighting'' = Inr (fl 2.2) \<and> getitem d2 ''lighting'' = Inr (fl 2.2) \<and>
     getitem d1 ''appliances'' = Inr (fl 4.5) \<and> getitem d2 ''appliances'' = Inr (fl 4.5) \<and>
     getitem d1 ''water_heater'' = Inr (fl 2.5) \<and> getitem d2 ''water_heater'' = Inr (fl 2.5) \<and>
     getitem d1 ''refrigerator'' = Inr (fl 2.0) \<and> getitem d2 ''refrigerator'' = Inr (fl 2.0)"
proof -
  have base: "calculate_base_energy ''flat'' ''2BHK'' =
     [(''lighting'', fl 2.2), (''fan_ac'', fl 6.0), (''appliances'', fl 4.5),
      (''water_heater'', fl 2.5), (''refrigerator'', fl 2.0)]"
    by (simp add: calculate_base_energy_def base_consumption_def dict_get_def)
  show ?thesis
    using daily_energy_frame [of "''flat''" "''2BHK''" 15 40]
    by (auto simp add: base getitem_def)
qed

section \<open>Monotonicity in the temperature\<close>

lemma weather_multiplier_mono:
  assumes "t1 \<le> t2"
  shows "weather_multiplier t1 \<le> weather_multiplier t2"
proof -
  have "fl 0.1 \<le> fl 0.3" "fl 0.3 \<le> fl 0.6" "fl 0.6 \<le> fl 0.8" "fl 0.8 \<le> fl 1.0"
    "fl 1.0 \<le> fl 1.3"
    by (rule fl_mono; simp)+
  then show ?thesis
    using assms unfolding weather_multiplier_cascade by auto
qed

lemma weather_multiplier_nonneg: "0 \<le> weather_multiplier t"
  unfolding weather_multiplier_cascade by (auto intro!: fl_nonneg)

lemma adjustment_mono:
  assumes "0 \<le> b" and "t1 \<le> t2"
  shows "calculate_weather_adjustment t1 b \<le> calculate_weather_adjustment t2 b"
  unfolding adjustment_is_product fmul_def
  using assms weather_multiplier_mono [OF assms(2)] weather_multiplier_nonneg [of t1]
  by (intro fl_mono mult_left_mono mult_nonneg_nonneg)

lemma adjustment_nonneg:
  assumes "0 \<le> b"
  shows "0 \<le> calculate_weather_adjustment t b"
  unfolding adjustment_is_product fmul_def
  using assms weather_multiplier_nonneg [of t] by (intro fl_nonneg mult_nonneg_nonneg)

lemma fadd_mono:
  assumes "0 \<le> a" and "a \<le> a'" and "0 \<le> b" and "b \<le> b'"
  shows "fadd a b \<le> fadd a' b'"
  unfolding fadd_def using assms by (intro fl_mono) simp_all

lemma fadd_nonneg:
  assumes "0 \<le> a" and "0 \<le> b"
  shows "0 \<le> fadd a b"
  unfolding fadd_def using assms by (intro fl_nonneg) simp

lemma total_mono:
  assumes "0 \<le> l" "0 \<le> f" "f \<le> f'" "0 \<le> a" "0 \<le> w" "0 \<le> g"
  shows "py_sum [l, f, a, w, g] \<le> py_sum [l, f', a, w, g]"
  unfolding py_sum_def foldl.simps
  using assms by (intro fadd_mono fadd_nonneg) simp_all

lemma base_energy_nonneg:
  assumes "(k, v) \<in> set (calculate_base_energy h r)"
  shows "0 \<le> v"
  using assms
  by (auto simp add: calculate_base_energy_def base_consumption_def dict_get_def fl_nonneg
      split: if_splits)

text \<open>
  C8. The weather multiplier is non-decreasing in the temperature. Consequently, for a
  valid pair of housing type and room configuration, the fan/AC value and the total of
  the daily estimate are non-decreasing in the temperature.
\<close>

theorem estimate_monotone_in_temperature:
  assumes "t1 \<le> t2"
    and "h \<in> {''flat'', ''tenement''}" and "r \<in> {''1BHK'', ''2BHK'', ''3BHK''}"
  shows "weather_multiplier t1 \<le> weather_multiplier t2 \<and>
         (\<exists>d1 d2 f1 f2 s1 s2.
            calculate_daily_energy h r t1 = Inr (Some d1) \<and>
            calculate_daily_energy h r t2 = Inr (Some d2) \<and>
            getitem d1 ''fan_ac'' = Inr f1 \<and> getitem d2 ''fan_ac'' = Inr f2 \<and> f1 \<le> f2 \<and>
            getitem d1 ''total'' = Inr s1 \<and> getitem d2 ''total'' = Inr s2 \<and> s1 \<le> s2)"
proof -
  from base_energy_valid [OF assms(2,3)] obtain l f a w g where
    base: "calculate_base_energy h r =
             [(''lighting'', l), (''fan_ac'', f), (''appliances'', a),
              (''water_heater'', w), (''refrigerator'', g)]"
    by blast
  have nonneg: "0 \<le> l" "0 \<le> f" "0 \<le> a" "0 \<le> w" "0 \<le> g"
    using base_energy_nonneg [of "''lighting''" l h r]
      base_energy_nonneg [of "''fan_ac''" f h r]
      base_energy_nonneg [of "''appliances''" a h r]
      base_energy_nonneg [of "''water_heater''" w h r]
      base_energy_nonneg [of "''refrigerator''" g h r]
    by (simp_all add: base)
  let ?f1 = "calculate_weather_adjustment t1 f"
  let ?f2 = "calculate_weather_adjustment t2 f"
  have fan: "?f1 \<le> ?f2" using nonneg(2) assms(1) by (rule adjustment_mono)
  have "0 \<le> ?f1" using nonneg(2) by (rule adjustment_nonneg)
  then have total: "py_sum [l, ?f1, a, w, g] \<le> py_sum [l, ?f2, a, w, g]"
    using nonneg fan by (intro total_mono)
  show ?thesis
    using weather_multiplier_mono [OF assms(1)] fan total
    unfolding daily_energy_of_profile [OF base]
    by (simp add: getitem_def)
qed

theorem estimate_monotone_in_temperature_witness:
  "weather_multiplier 15 \<le> weather_multiplier 40 \<and>
   (\<exists>d1 d2 f1 f2 s1 s2.
      calculate_daily_energy ''flat'' ''2BHK'' 15 = Inr (Some d1) \<and>
      calculate_daily_energy ''flat'' ''2BHK'' 40 = Inr (Some d2) \<and>
      getitem d1 ''fan_ac'' = Inr f1 \<and> getitem d2 ''fan_ac'' = Inr f2 \<and> f1 \<le> f2 \<and>
      getitem d1 ''total'' = Inr s1 \<and> getitem d2 ''total'' = Inr s2 \<and> s1 \<le> s2)"
  using estimate_monotone_in_temperature [of 15 40 "''flat''" "''2BHK''"] by simp

section \<open>Two reference estimates\<close>

lemma flat_2bhk_at_25:
  "calculate_daily_energy ''flat'' ''2BHK'' 25 =
     Inr (Some [(''lighting'', fl 2.2), (''fan_ac'', fl 3.6 - 1 / 2 ^ 51),
                (''appliances'', fl 4.5), (''water_heater'', fl 2.5),
                (''refrigerator'', fl 2.0), (''total'', fl 14.8)])"
proof -
  have base: "calculate_base_energy ''flat'' ''2BHK'' =
     [(''lighting'', fl 2.2), (''fan_ac'', fl 6.0), (''appliances'', fl 4.5),
      (''water_heater'', fl 2.5), (''refrigerator'', fl 2.0)]"
    by (simp add: calculate_base_energy_def base_consumption_def dict_get_def)
  have fan: "calculate_weather_adjustment 25 (fl 6.0) = fl 3.6 - 1 / 2 ^ 51"
    by code_simp
  have total: "py_sum [fl 2.2, fl 3.6 - 1 / 2 ^ 51, fl 4.5, fl 2.5, fl 2.0] = fl 14.8"
    by code_simp
  show ?thesis
    unfolding daily_energy_of_profile [OF base] fan total by (rule refl)
qed

lemma tenement_1bhk_at_40:
  "calculate_daily_energy ''tenement'' ''1BHK'' 40 =
     Inr (Some [(''lighting'', fl 1.8), (''fan_ac'', fl 6.5),
                (''appliances'', fl 3.0), (''water_heater'', fl 1.5),
                (''refrigerator'', fl 1.6), (''total'', fl 14.4)])"
proof -
  have base: "calculate_base_energy ''tenement'' ''1BHK'' =
     [(''lighting'', fl 1.8), (''fan_ac'', fl 5.0), (''appliances'', fl 3.0),
      (''water_heater'', fl 1.5), (''refrigerator'', fl 1.6)]"
    by (simp add: calculate_base_energy_def base_consumption_def dict_get_def)
  have fan: "calculate_weather_adjustment 40 (fl 5.0) = fl 6.5"
    by code_simp
  have total: "py_sum [fl 1.8, fl 6.5, fl 3.0, fl 1.5, fl 1.6] = fl 14.4"
    by code_simp
  show ?thesis
    unfolding daily_energy_of_profile [OF base] fan total by (rule refl)
qed

text \<open>
  C9, as the source has it. For a flat with 2BHK at 25 degrees the estimate has lighting
  2.2, appliances 4.5, water heater 2.5, refrigerator 2.0 and total 14.8, and its fan/AC
  value is the float product of 6.0 and 0.6, which is the float next below 3.6 (smaller
  by \<open>1 / 2 ^ 51\<close>, printed 3.5999999999999996). For a tenement with 1BHK at 40 degrees the
  fan/AC value is the float product of 5.0 and 1.3, which is exactly 6.5, and the total
  is 14.4.
\<close>

theorem reference_estimates:
  "calculate_daily_energy ''flat'' ''2BHK'' 25 =
     Inr (Some [(''lighting'', fl 2.2), (''fan_ac'', fl 3.6 - 1 / 2 ^ 51),
                (''appliances'', fl 4.5), (''water_heater'', fl 2.5),
                (''refrigerator'', fl 2.0), (''total'', fl 14.8)]) \<and>
   fmul (fl 6.0) (fl 0.6) = fl 3.6 - 1 / 2 ^ 51 \<and>
   calculate_daily_energy ''tenement'' ''1BHK'' 40 =
     Inr (Some [(''lighting'', fl 1.8), (''fan_ac'', fl 6.5),
                (''appliances'', fl 3.0), (''water_heater'', fl 1.5),
                (''refrigerator'', fl 1.6), (''total'', fl 14.4)]) \<and>
   fmul (fl 5.0) (fl 1.3) = fl 6.5"
proof -
  have "fmul (fl 6.0) (fl 0.6) = fl 3.6 - 1 / 2 ^ 51" by code_simp
  moreover have "fmul (fl 5.0) (fl 1.3) = fl 6.5" by code_simp
  ultimately show ?thesis
    using flat_2bhk_at_25 tenement_1bhk_at_40 by (intro conjI)
qed

text \<open>The fan/AC value of the first estimate is not the float 3.6.\<close>

theorem reference_estimate_counterexample:
  "calculate_daily_energy ''flat'' ''2BHK'' 25 \<noteq>
     Inr (Some [(''lighting'', fl 2.2), (''fan_ac'', fl 3.6),
                (''appliances'', fl 4.5), (''water_heater'', fl 2.5),
                (''refrigerator'', fl 2.0), (''total'', fl 14.8)])"
  unfolding flat_2bhk_at_25 by simp

section \<open>The weekly summary\<close>

text \<open>
  The scan of \<^verbatim>\<open>idxmax\<close> either keeps the candidate it started with, and then no
  later value exceeds it, or it ends at the first position of the largest later value.
\<close>

lemma idxmax_scan_spec:
  "(idxmax_scan xs i best_i best = best_i \<and> (\<forall>x \<in> set xs. x \<le> best)) \<or>
   (\<exists>k < length xs. idxmax_scan xs i best_i best = i + k \<and> best < xs ! k \<and>
        (\<forall>j < length xs. xs ! j \<le> xs ! k) \<and> (\<forall>j < k. xs ! j < xs ! k))"
proof (induction xs arbitrary: i best_i best)
  case Nil
  then show ?case by simp
next
  case (Cons x xs)
  show ?case
  proof (cases "best < x")
    case True
    from Cons.IH [of "Suc i" i x] show ?thesis
    proof
      assume a: "idxmax_scan xs (Suc i) i x = i \<and> (\<forall>y \<in> set xs. y \<le> x)"
      have "0 < length (x # xs) \<and> idxmax_scan (x # xs) i best_i best = i + 0 \<and>
            best < (x # xs) ! 0 \<and> (\<forall>j < length (x # xs). (x # xs) ! j \<le> (x # xs) ! 0) \<and>
            (\<forall>j < 0. (x # xs) ! j < (x # xs) ! 0)"
        using a True by (auto simp add: nth_Cons split: nat.splits)
      then show ?thesis by blast
    next
      assume "\<exists>k < length xs. idxmax_scan xs (Suc i) i x = Suc i + k \<and> x < xs ! k \<and>
        (\<forall>j < length xs. xs ! j \<le> xs ! k) \<and> (\<forall>j < k. xs ! j < xs ! k)"
      then obtain k where k: "k < length xs" "idxmax_scan xs (Suc i) i x = Suc i + k"
        "x < xs ! k" "\<forall>j < length xs. xs ! j \<le> xs ! k" "\<forall>j < k. xs ! j < xs ! k"
        by blast
      have "Suc k < length (x # xs) \<and> idxmax_scan (x # xs) i best_i best = i + Suc k \<and>
            best < (x # xs) ! Suc k \<and>
            (\<forall>j < length (x # xs). (x # xs) ! j \<le> (x # xs) ! Suc k) \<and>
            (\<forall>j < Suc k. (x # xs) ! j < (x # xs) ! Suc k)"
        using k True by (auto simp add: nth_Cons less_Suc_eq_0_disj split: nat.splits)
      then show ?thesis by blast
    qed
  next
    case False
    from Cons.IH [of "Suc i" best_i best] show ?thesis
    proof
      assume "idxmax_scan xs (Suc i) best_i best = best_i \<and> (\<forall>y \<in> set xs. y \<le> best)"
      then show ?thesis using False by auto
    next
      assume "\<exists>k < length xs. idxmax_scan xs (Suc i) best_i best = Suc i + k \<and> best < xs ! k \<and>
        (\<forall>j < length xs. xs ! j \<le> xs ! k) \<and> (\<forall>j < k. xs ! j < xs ! k)"
      then obtain k where k: "k < length xs" "idxmax_scan xs (Suc i) best_i best = Suc i + k"
        "best < xs ! k" "\<forall>j < length xs. xs ! j \<le> xs ! k" "\<forall>j < k. xs ! j < xs ! k"
        by blast
      have "Suc k < length (x # xs) \<and> idxmax_scan (x # xs) i best_i best = i + Suc k \<and>
            best < (x # xs) ! Suc k \<and>
            (\<forall>j < length (x # xs). (x # xs) ! j \<le> (x # xs) ! Suc k) \<and>
            (\<forall>j < Suc k. (x # xs) ! j < (x # xs) ! Suc k)"
        using k False by (auto simp add: nth_Cons less_Suc_eq_0_disj split: nat.splits)
      then show ?thesis by blast
    qed
  qed
qed

lemma series_idxmax_first_max:
  assumes "xs \<noteq> []"
  shows "\<exists>i < length xs. series_idxmax xs = Inr i \<and>
           (\<forall>j < length xs. xs ! j \<le> xs ! i) \<and> (\<forall>j < i. xs ! j < xs ! i)"
proof -
  from assms obtain x rest where xs: "xs = x # rest" by (cases xs) auto
  from idxmax_scan_spec [of rest 1 0 x] show ?thesis
  proof
    assume a: "idxmax_scan rest 1 0 x = 0 \<and> (\<forall>y \<in> set rest. y \<le> x)"
    have "0 < length xs \<and> series_idxmax xs = Inr 0 \<and>
          (\<forall>j < length xs. xs ! j \<le> xs ! 0) \<and> (\<forall>j < 0. xs ! j < xs ! 0)"
      using a by (auto simp add: xs series_idxmax_def nth_Cons split: nat.splits)
    then show ?thesis by blast
  next
    assume "\<exists>k < length rest. idxmax_scan rest 1 0 x = 1 + k \<and> x < rest ! k \<and>
        (\<forall>j < length rest. rest ! j \<le> rest ! k) \<and> (\<forall>j < k. rest ! j < rest ! k)"
    then obtain k where k: "k < length rest" "idxmax_scan rest 1 0 x = 1 + k"
      "x < rest ! k" "\<forall>j < length rest. rest ! j \<le> rest ! k" "\<forall>j < k. rest ! j < rest ! k"
      by blast
    have "Suc k < length xs \<and> series_idxmax xs = Inr (Suc k) \<and>
          (\<forall>j < length xs. xs ! j \<le> xs ! Suc k) \<and> (\<forall>j < Suc k. xs ! j < xs ! Suc k)"
      using k by (auto simp add: xs series_idxmax_def nth_Cons less_Suc_eq_0_disj split: nat.splits)
    then show ?thesis by blast
  qed
qed

text \<open>
  Seven days of 14.8 add up to the float 103.6; its seventh part is the float next
  below 14.8 (printed 14.799999999999999).
\<close>

lemma seven_days_sum:
  "series_sum [fl 14.8, fl 14.8, fl 14.8, fl 14.8, fl 14.8, fl 14.8, fl 14.8] = fl 103.6"
  by code_simp

lemma seven_days_mean:
  "fdiv (fl 103.6) 7 = fl 14.8 - 1 / 2 ^ 49"
  by code_simp

text \<open>
  C4. For a non-empty sequence of \<open>N\<close> rows the summary is present; its total energy is
  the sum of the rows' totals, its average is that total divided by \<open>N\<close>, and its peak
  day is the day of a row whose total is the largest and strictly larger than the
  total of every earlier row, that is, of the first row with the largest total.
\<close>

theorem weekly_summary_aggregates:
  assumes "weekly_data \<noteq> []"
  shows "\<exists>s i. main_weekly_summary weekly_data = Inr (Some s) \<and>
           total_weekly_energy s = series_sum (map Total_Energy weekly_data) \<and>
           average_daily_energy s =
             fdiv (total_weekly_energy s) (of_nat (length weekly_data)) \<and>
           i < length weekly_data \<and> highest_day s = Day (weekly_data ! i) \<and>
           (\<forall>j < length weekly_data.
              Total_Energy (weekly_data ! j) \<le> Total_Energy (weekly_data ! i)) \<and>
           (\<forall>j < i. Total_Energy (weekly_data ! j) < Total_Energy (weekly_data ! i))"
proof -
  let ?col = "map Total_Energy weekly_data"
  from assms have "?col \<noteq> []" by simp
  from series_idxmax_first_max [OF this] obtain i where
    i: "i < length weekly_data" "series_idxmax ?col = Inr i"
       "\<forall>j < length weekly_data. ?col ! j \<le> ?col ! i" "\<forall>j < i. ?col ! j < ?col ! i"
    by auto
  let ?s = "\<lparr>total_weekly_energy = series_sum ?col,
             average_daily_energy = series_mean ?col,
             estimated_monthly_bill = fmul (fmul (series_sum ?col) (fl 4.3)) 6,
             highest_day = Day (weekly_data ! i)\<rparr>"
  have run: "main_weekly_summary weekly_data = Inr (Some ?s)"
    using assms i(1,2) by (simp add: main_weekly_summary_def bind_err_def loc_Day_def Let_def)
  have "\<forall>j < length weekly_data.
          Total_Energy (weekly_data ! j) \<le> Total_Energy (weekly_data ! i)"
    using i(1,3) by simp
  moreover have "\<forall>j < i. Total_Energy (weekly_data ! j) < Total_Energy (weekly_data ! i)"
    using i(1,4) by simp
  ultimately show ?thesis
    using run i(1) by (intro exI [of _ ?s] exI [of _ i]) (simp add: series_mean_def)
qed

theorem weekly_summary_aggregates_witness:
  "\<exists>s. main_weekly_summary
          (map (\<lambda>d. \<lparr>Day = d, Temperature = 25, Total_Energy = fl 14.8, Lighting = fl 2.2,
                      Fan_AC = fmul (fl 6.0) (fl 0.6), Appliances = fl 4.5,
                      Water_Heater = fl 2.5, Refrigerator = fl 2.0\<rparr>)
             [''Monday'', ''Tuesday'', ''Wednesday'', ''Thursday'', ''Friday'',
              ''Saturday'', ''Sunday'']) = Inr (Some s) \<and>
        total_weekly_energy s = fl 103.6 \<and>
        average_daily_energy s = fdiv (fl 103.6) 7 \<and>
        highest_day s = ''Monday''"
proof -
  let ?row = "\<lambda>d. \<lparr>Day = d, Temperature = 25, Total_Energy = fl 14.8, Lighting = fl 2.2,
                      Fan_AC = fmul (fl 6.0) (fl 0.6), Appliances = fl 4.5,
                      Water_Heater = fl 2.5, Refrigerator = fl 2.0\<rparr>"
  let ?week = "map ?row [''Monday'', ''Tuesday'', ''Wednesday'', ''Thursday'', ''Friday'',
              ''Saturday'', ''Sunday'']"
  have "?week \<noteq> []" by simp
  from weekly_summary_aggregates [OF this] obtain s i where
    s: "main_weekly_summary ?week = Inr (Some s)"
       "total_weekly_energy s = series_sum (map Total_Energy ?week)"
       "average_daily_energy s = fdiv (total_weekly_energy s) (of_nat (length ?week))"
       "i < length ?week" "highest_day s = Day (?week ! i)"
       "\<forall>j < i. Total_Energy (?week ! j) < Total_Energy (?week ! i)"
    by blast
  have all: "\<forall>r \<in> set ?week. Total_Energy r = fl 14.8" by simp
  have same: "Total_Energy (?week ! j) = fl 14.8" if "j < length ?week" for j
    using all nth_mem [OF that] by blast
  have "i = 0"
  proof (rule ccontr)
    assume "i \<noteq> 0"
    then have "Total_Energy (?week ! 0) < Total_Energy (?week ! i)" using s(6) by blast
    moreover have "Total_Energy (?week ! i) = fl 14.8" using s(4) by (rule same)
    moreover have "Total_Energy (?week ! 0) = fl 14.8" by (rule same) simp
    ultimately show False by simp
  qed
  then have "highest_day s = ''Monday''" using s(5) by simp
  moreover have "total_weekly_energy s = fl 103.6"
    using s(2) seven_days_sum by simp
  moreover from this have "average_daily_energy s = fdiv (fl 103.6) 7"
    using s(3) by simp
  ultimately show ?thesis using s(1) by blast
qed

text \<open>
  C5, as the source has it. For an empty sequence of rows the guard skips the summary:
  the result is absent, and nothing is raised or reported. No exception is raised for
  any sequence of rows, the summary is absent only for the empty one, and a summary
  that is present comes from \<open>N > 0\<close> rows, its average being the total divided by
  that \<open>N\<close>.
\<close>

theorem empty_week_no_summary:
  "main_weekly_summary [] = Inr None \<and>
   (main_weekly_summary weekly_data = Inr None \<longleftrightarrow> weekly_data = []) \<and>
   \<not> isl (main_weekly_summary weekly_data) \<and>
   (\<forall>s. main_weekly_summary weekly_data = Inr (Some s) \<longrightarrow>
      0 < length weekly_data \<and>
      average_daily_energy s =
        fdiv (total_weekly_energy s) (of_nat (length weekly_data)))"
proof (cases "weekly_data = []")
  case True
  then show ?thesis by (simp add: main_weekly_summary_def)
next
  case False
  let ?col = "map Total_Energy weekly_data"
  from False have "?col \<noteq> []" by simp
  from series_idxmax_first_max [OF this] obtain i where
    "i < length weekly_data" "series_idxmax ?col = Inr i"
    by auto
  then show ?thesis
    using False
    by (simp add: main_weekly_summary_def bind_err_def loc_Day_def Let_def series_mean_def)
qed

theorem empty_week_no_summary_witness:
  "main_weekly_summary [] = Inr None \<and>
   main_weekly_summary
     [\<lparr>Day = ''Monday'', Temperature = 25, Total_Energy = fl 14.8, Lighting = fl 2.2,
       Fan_AC = fmul (fl 6.0) (fl 0.6), Appliances = fl 4.5, Water_Heater = fl 2.5,
       Refrigerator = fl 2.0\<rparr>] =
     Inr (Some \<lparr>total_weekly_energy = series_sum [fl 14.8],
                 average_daily_energy = fdiv (series_sum [fl 14.8]) 1,
                 estimated_monthly_bill = fmul (fmul (series_sum [fl 14.8]) (fl 4.3)) 6,
                 highest_day = ''Monday''\<rparr>) \<and>
   (0::nat) < length
     [\<lparr>Day = ''Monday'', Temperature = 25, Total_Energy = fl 14.8, Lighting = fl 2.2,
       Fan_AC = fmul (fl 6.0) (fl 0.6), Appliances = fl 4.5, Water_Heater = fl 2.5,
       Refrigerator = fl 2.0\<rparr>]"
  using empty_week_no_summary
    [of "[\<lparr>Day = ''Monday'', Temperature = 25, Total_Energy = fl 14.8, Lighting = fl 2.2,
       Fan_AC = fmul (fl 6.0) (fl 0.6), Appliances = fl 4.5, Water_Heater = fl 2.5,
       Refrigerator = fl 2.0\<rparr>]"]
  by (simp add: main_weekly_summary_def bind_err_def loc_Day_def Let_def series_mean_def
      series_idxmax_def)

text \<open>The empty week signals no error.\<close>

theorem empty_week_counterexample:
  "\<not> isl (main_weekly_summary [])"
  by (simp add: main_weekly_summary_def)

section \<open>The two temperature cascades\<close>

lemma multipliers_distinct:
  "distinct [fl 0.1, fl 0.3, fl 0.6, fl 0.8, fl 1.0, fl 1.3]"
  by code_simp

text \<open>
  C10. The description shown for a day and the multiplier used for its energy place
  every temperature in the same band: Very Cold with 0.1, Cool with 0.3, Comfortable
  with 0.6, Warm with 0.8, Hot with 1.0 and Very Hot with 1.3.
\<close>

theorem description_matches_multiplier:
  "(fst (weather_desc t) = ''Very Cold'' \<longleftrightarrow> weather_multiplier t = fl 0.1) \<and>
   (fst (weather_desc t) = ''Cool'' \<longleftrightarrow> weather_multiplier t = fl 0.3) \<and>
   (fst (weather_desc t) = ''Comfortable'' \<longleftrightarrow> weather_multiplier t = fl 0.6) \<and>
   (fst (weather_desc t) = ''Warm'' \<longleftrightarrow> weather_multiplier t = fl 0.8) \<and>
   (fst (weather_desc t) = ''Hot'' \<longleftrightarrow> weather_multiplier t = fl 1.0) \<and>
   (fst (weather_desc t) = ''Very Hot'' \<longleftrightarrow> weather_multiplier t = fl 1.3) \<and>
   (fst (weather_desc t), weather_multiplier t) \<in>
     {(''Very Cold'', fl 0.1), (''Cool'', fl 0.3), (''Comfortable'', fl 0.6),
      (''Warm'', fl 0.8), (''Hot'', fl 1.0), (''Very Hot'', fl 1.3)}"
  using multipliers_distinct
  unfolding weather_multiplier_cascade weather_desc_def
  by auto

end
